theory Spec2Isabelle
  imports Complex_Main "HOL-Library.Char_ord" "HOL-Library.List_Lexorder"
begin

section \<open>Values and library interface\<close>

text \<open>
  A shallow embedding of \<^verbatim>\<open>server.js\<close>: the signed session cookie
  (\<^verbatim>\<open>signToken\<close>, \<^verbatim>\<open>verifyToken\<close>, the login handler) and the MQTT bridge
  (\<^verbatim>\<open>latestByDevice\<close>, \<^verbatim>\<open>sseByDevice\<close>, the message handler, the listing and
  stream handlers).

  A JavaScript string is a \<open>string\<close>; text outside ASCII is read as its UTF-8 bytes, so
  \<^verbatim>\<open>Buffer.from(s)\<close> is the string itself. A value produced by \<^verbatim>\<open>JSON.parse\<close> is a
  \<open>json\<close>; an object is the list of its own properties in insertion order. Numbers are
  rationals: every finite double is one, and the non-finite results of overflowing
  literals are not represented.
\<close>

datatype json =
    JNull
  | JBool bool
  | JNum rat
  | JStr string
  | JArr "json list"
  | JObj "(string \<times> json) list"

datatype js_error = SyntaxError | TypeError | RangeError

text \<open>
  The functions of Node.js and of the language runtime that the program calls. Their code
  is not part of the repository, so they are parameters of the model:
  \<^item> \<open>hmac_sha256 key data\<close> is
    \<^verbatim>\<open>crypto.createHmac("sha256", key).update(data).digest("base64url")\<close>;
  \<^item> \<open>to_base64url s\<close> is \<^verbatim>\<open>Buffer.from(s, "utf8").toString("base64url")\<close>;
  \<^item> \<open>from_base64url s\<close> is \<^verbatim>\<open>Buffer.from(s, "base64url").toString("utf8")\<close>;
  \<^item> \<open>JSON_stringify\<close> and \<open>JSON_parse\<close>, the latter \<open>None\<close> where it throws;
  \<^item> \<open>ToNumber v\<close> is the numeric conversion of a string, array or object in a
    comparison, \<open>None\<close> for NaN;
  \<^item> \<open>utf8_toString buf\<close> is \<^verbatim>\<open>buf.toString("utf8")\<close>, which Node.js computes as
    \<open>utf8_decode\<close> below;
  \<^item> \<open>String_trim s\<close> is \<^verbatim>\<open>s.trim()\<close>.
\<close>

record runtime =
  hmac_sha256 :: "string \<Rightarrow> string \<Rightarrow> string"
  to_base64url :: "string \<Rightarrow> string"
  from_base64url :: "string \<Rightarrow> string"
  JSON_stringify :: "json \<Rightarrow> string"
  JSON_parse :: "string \<Rightarrow> json option"
  ToNumber :: "json \<Rightarrow> rat option"
  utf8_toString :: "string \<Rightarrow> string"
  String_trim :: "string \<Rightarrow> string"

text \<open>The configuration read from the environment when the process starts.\<close>

record config =
  MQTT_URL :: string
  TOPIC_PREFIX :: string
  DASH_USER :: string
  DASH_PASS :: string
  AUTH_SECRET :: string

subsection \<open>\<^verbatim>\<open>String.prototype.split\<close> with a one-character separator\<close>

text \<open>
  \<^verbatim>\<open>"a.b".split(".")\<close> is \<^verbatim>\<open>["a", "b"]\<close>, \<^verbatim>\<open>"".split(".")\<close> is \<^verbatim>\<open>[""]\<close> and
  \<^verbatim>\<open>"a.".split(".")\<close> is \<^verbatim>\<open>["a", ""]\<close>: the result is never empty.
\<close>

fun split_on :: "char \<Rightarrow> string \<Rightarrow> string list" where
  "split_on c [] = [[]]"
| "split_on c (x # xs) =
     (if x = c then [] # split_on c xs
      else (case split_on c xs of
              [] \<Rightarrow> [[x]]
            | p # ps \<Rightarrow> (x # p) # ps))"

subsection \<open>Truthiness, property access, comparison\<close>

text \<open>
  \<open>get_prop obj k\<close> is \<^verbatim>\<open>obj[k]\<close> for a parsed JSON value and a key that no prototype
  defines: a \<^verbatim>\<open>TypeError\<close> on \<^verbatim>\<open>null\<close>, the own property of an object, and
  \<^verbatim>\<open>undefined\<close> (\<open>None\<close>) otherwise.
\<close>

definition get_prop :: "json \<Rightarrow> string \<Rightarrow> js_error + json option" where
  "get_prop obj k =
     (case obj of
        JNull \<Rightarrow> Inl TypeError
      | JObj kvs \<Rightarrow> Inr (map_of kvs k)
      | _ \<Rightarrow> Inr None)"

text \<open>\<open>truthy v\<close> is \<^verbatim>\<open>!!v\<close>, with \<open>None\<close> for \<^verbatim>\<open>undefined\<close>.\<close>

definition truthy :: "json option \<Rightarrow> bool" where
  "truthy v =
     (case v of
        None \<Rightarrow> False
      | Some JNull \<Rightarrow> False
      | Some (JBool b) \<Rightarrow> b
      | Some (JNum n) \<Rightarrow> n \<noteq> 0
      | Some (JStr s) \<Rightarrow> s \<noteq> []
      | Some (JArr _) \<Rightarrow> True
      | Some (JObj _) \<Rightarrow> True)"

text \<open>
  \<open>now_gt L now v\<close> is \<^verbatim>\<open>Date.now() > v\<close>: both sides are converted to numbers, and a
  comparison with NaN is false.
\<close>

definition now_gt :: "runtime \<Rightarrow> int \<Rightarrow> json option \<Rightarrow> bool" where
  "now_gt L now v =
     (case v of
        None \<Rightarrow> False
      | Some JNull \<Rightarrow> 0 < now
      | Some (JBool b) \<Rightarrow> (if b then 1 else 0) < now
      | Some (JNum n) \<Rightarrow> n < of_int now
      | Some w \<Rightarrow> (case ToNumber L w of None \<Rightarrow> False | Some n \<Rightarrow> n < of_int now))"

subsection \<open>Text encodings\<close>

text \<open>
  \<open>utf8_decode buf\<close> is the text that Node.js makes of the bytes \<open>buf\<close> read as UTF-8,
  itself written in UTF-8: a well-formed sequence is kept, and every maximal ill-formed
  part (a byte that starts no sequence, or a sequence cut short) becomes U+FFFD, the three
  bytes \<open>EF BF BD\<close>. \<open>utf8_lead b\<close> says how many continuation bytes the lead byte \<open>b\<close>
  needs and the bounds of the first; \<open>utf8_tail\<close> takes them from the front of the rest
  as far as they fit.
\<close>

definition utf8_lead :: "int \<Rightarrow> (nat \<times> int \<times> int) option" where
  "utf8_lead b =
     (if 0xC2 \<le> b \<and> b \<le> 0xDF then Some (1, 0x80, 0xBF)
      else if b = 0xE0 then Some (2, 0xA0, 0xBF)
      else if b = 0xED then Some (2, 0x80, 0x9F)
      else if 0xE1 \<le> b \<and> b \<le> 0xEF then Some (2, 0x80, 0xBF)
      else if b = 0xF0 then Some (3, 0x90, 0xBF)
      else if b = 0xF4 then Some (3, 0x80, 0x8F)
      else if 0xF1 \<le> b \<and> b \<le> 0xF3 then Some (3, 0x80, 0xBF)
      else None)"

fun utf8_tail :: "nat \<Rightarrow> int \<Rightarrow> int \<Rightarrow> string \<Rightarrow> string" where
  "utf8_tail 0 lo hi bs = []"
| "utf8_tail (Suc n) lo hi [] = []"
| "utf8_tail (Suc n) lo hi (b # bs) =
     (if lo \<le> of_char b \<and> of_char b \<le> hi then b # utf8_tail n 0x80 0xBF bs else [])"

definition replacement_character :: string where
  "replacement_character = [CHR 0xEF, CHR 0xBF, CHR 0xBD]"

function utf8_decode :: "string \<Rightarrow> string" where
  "utf8_decode [] = []"
| "utf8_decode (b # bs) =
     (if of_char b < (0x80 :: int) then b # utf8_decode bs
      else
        (case utf8_lead (of_char b) of
           None \<Rightarrow> replacement_character @ utf8_decode bs
         | Some (n, lo, hi) \<Rightarrow>
             (if length (utf8_tail n lo hi bs) = n
              then b # utf8_tail n lo hi bs @ utf8_decode (drop n bs)
              else replacement_character @ utf8_decode (drop (length (utf8_tail n lo hi bs)) bs))))"
  by pat_completeness auto
termination
  by (relation "measure length") auto

text \<open>
  The bytes \<open>buf\<close> are well-formed UTF-8 when they are a succession of ASCII bytes and
  of lead bytes each followed by all the continuation bytes it needs, within their bounds.
\<close>

function well_formed_utf8 :: "string \<Rightarrow> bool" where
  "well_formed_utf8 [] = True"
| "well_formed_utf8 (b # bs) =
     (if of_char b < (0x80 :: int) then well_formed_utf8 bs
      else
        (case utf8_lead (of_char b) of
           None \<Rightarrow> False
         | Some (n, lo, hi) \<Rightarrow>
             length (utf8_tail n lo hi bs) = n \<and> well_formed_utf8 (drop n bs)))"
  by pat_completeness auto
termination
  by (relation "measure length") auto

text \<open>
  \<open>utf16_units s\<close> is the sequence of UTF-16 code units of the text \<open>s\<close>, the form in
  which JavaScript holds and compares a string: the code points are read off the UTF-8
  bytes, and one beyond U+FFFF becomes a surrogate pair.
\<close>

fun code_points :: "int list \<Rightarrow> int list" where
  "code_points [] = []"
| "code_points (b # bs) =
     (if b < 0xC0 then b # code_points bs
      else if b < 0xE0 then
        (case bs of
           c1 # rest \<Rightarrow> ((b - 0xC0) * 0x40 + (c1 - 0x80)) # code_points rest
         | _ \<Rightarrow> b # code_points bs)
      else if b < 0xF0 then
        (case bs of
           c1 # c2 # rest \<Rightarrow>
             ((b - 0xE0) * 0x1000 + (c1 - 0x80) * 0x40 + (c2 - 0x80)) # code_points rest
         | _ \<Rightarrow> b # code_points bs)
      else
        (case bs of
           c1 # c2 # c3 # rest \<Rightarrow>
             ((b - 0xF0) * 0x40000 + (c1 - 0x80) * 0x1000 + (c2 - 0x80) * 0x40 + (c3 - 0x80))
               # code_points rest
         | _ \<Rightarrow> b # code_points bs))"

definition utf16_units :: "string \<Rightarrow> int list" where
  "utf16_units s =
     concat (map
       (\<lambda>cp. if cp < 0x10000 then [cp]
             else [0xD800 + (cp - 0x10000) div 0x400, 0xDC00 + (cp - 0x10000) mod 0x400])
       (code_points (map of_char s)))"

section \<open>Token codec\<close>

text \<open>
  \<^verbatim>\<open>
  function b64url(str) {
    return Buffer.from(str, "utf8").toString("base64url");
  }
  function signToken(payloadObj) {
    const payload = b64url(JSON.stringify(payloadObj));
    const sig = crypto.createHmac("sha256", AUTH_SECRET).update(payload).digest("base64url");
    return `${payload}.${sig}`;
  }
  \<close>
\<close>

definition b64url :: "runtime \<Rightarrow> string \<Rightarrow> string" where
  "b64url L str = to_base64url L str"

definition signToken :: "runtime \<Rightarrow> config \<Rightarrow> json \<Rightarrow> string" where
  "signToken L C payloadObj =
     (let payload = b64url L (JSON_stringify L payloadObj);
          sig = hmac_sha256 L (AUTH_SECRET C) payload
      in payload @ ''.'' @ sig)"

text \<open>
  \<^verbatim>\<open>crypto.timingSafeEqual(a, b)\<close> raises a \<^verbatim>\<open>RangeError\<close> when the two buffers differ
  in length and otherwise says whether they hold the same bytes.
\<close>

definition timingSafeEqual :: "string \<Rightarrow> string \<Rightarrow> js_error + bool" where
  "timingSafeEqual a b = (if length a \<noteq> length b then Inl RangeError else Inr (a = b))"

text \<open>
  The body of the \<^verbatim>\<open>try\<close> block of \<^verbatim>\<open>verifyToken\<close>, \<open>Inl\<close> where it throws:
  \<^verbatim>\<open>
  const obj = JSON.parse(Buffer.from(payload, "base64url").toString("utf8"));
  if (!obj.exp || Date.now() > obj.exp) return null;
  return obj;
  \<close>
\<close>

definition verifyToken_try :: "runtime \<Rightarrow> int \<Rightarrow> string \<Rightarrow> js_error + json option" where
  "verifyToken_try L now payload =
     (case JSON_parse L (from_base64url L payload) of
        None \<Rightarrow> Inl SyntaxError
      | Some obj \<Rightarrow>
          (case get_prop obj ''exp'' of
             Inl e \<Rightarrow> Inl e
           | Inr expv \<Rightarrow>
               if \<not> truthy expv \<or> now_gt L now expv then Inr None else Inr (Some obj)))"

text \<open>
  \<^verbatim>\<open>
  function verifyToken(token) {
    if (!token || typeof token !== "string") return null;
    const parts = token.split(".");
    if (parts.length !== 2) return null;
    const [payload, sig] = parts;
    const expected = crypto.createHmac("sha256", AUTH_SECRET).update(payload).digest("base64url");
    const a = Buffer.from(sig);
    const b = Buffer.from(expected);
    if (a.length !== b.length) return null;
    if (!crypto.timingSafeEqual(a, b)) return null;
    try { ... } catch { return null; }
  }
  \<close>
  The token is the string that \<^verbatim>\<open>getCookie\<close> returns, the empty string when the
  cookie is missing. \<open>now\<close> is the value of \<^verbatim>\<open>Date.now()\<close>. The result is \<open>Inr None\<close>
  for \<^verbatim>\<open>null\<close>, \<open>Inr (Some obj)\<close> for the payload object, and \<open>Inl e\<close> for an
  exception that leaves the function.
\<close>

definition verifyToken :: "runtime \<Rightarrow> config \<Rightarrow> int \<Rightarrow> string \<Rightarrow> js_error + json option" where
  "verifyToken L C now token =
     (if token = [] then Inr None
      else
        (case split_on CHR ''.'' token of
           [payload, sig] \<Rightarrow>
             (let expected = hmac_sha256 L (AUTH_SECRET C) payload;
                  a = sig;
                  b = expected
              in if length a \<noteq> length b then Inr None
                 else
                   (case timingSafeEqual a b of
                      Inl e \<Rightarrow> Inl e
                    | Inr same \<Rightarrow>
                        if \<not> same then Inr None
                        else
                          (case verifyToken_try L now payload of
                             Inl e \<Rightarrow> Inr None
                           | Inr r \<Rightarrow> Inr r)))
         | _ \<Rightarrow> Inr None))"

text \<open>
  The credential check of \<^verbatim>\<open>app.post("/login")\<close>: the token put into the cookie when
  user and password match, \<open>None\<close> for the redirect to \<^verbatim>\<open>/login?e=1\<close>.
  \<^verbatim>\<open>
  if (user === DASH_USER && pass === DASH_PASS) {
    const token = signToken({ u: user, exp: Date.now() + 12 * 60 * 60 * 1000 });
    ...
  \<close>
\<close>

definition login_payload :: "string \<Rightarrow> int \<Rightarrow> json" where
  "login_payload user expires = JObj [(''u'', JStr user), (''exp'', JNum (of_int expires))]"

definition post_login :: "runtime \<Rightarrow> config \<Rightarrow> int \<Rightarrow> string \<Rightarrow> string \<Rightarrow> string option" where
  "post_login L C now user pass =
     (if user = DASH_USER C \<and> pass = DASH_PASS C
      then Some (signToken L C (login_payload user (now + 12 * 60 * 60 * 1000)))
      else None)"

section \<open>MQTT bridge\<close>

subsection \<open>\<^verbatim>\<open>Map\<close> and \<^verbatim>\<open>Set\<close>\<close>

text \<open>
  A JavaScript \<^verbatim>\<open>Map\<close> is the list of its entries in insertion order: \<^verbatim>\<open>set\<close> replaces
  the value of a key that is present, where it stands, and appends an entry for a new key;
  \<^verbatim>\<open>keys()\<close> iterates in that order. A \<^verbatim>\<open>Set\<close> is the list of its members in
  insertion order.
\<close>

definition Map_get :: "'k \<Rightarrow> ('k \<times> 'v) list \<Rightarrow> 'v option" where
  "Map_get k m = map_of m k"

definition Map_has :: "'k \<Rightarrow> ('k \<times> 'v) list \<Rightarrow> bool" where
  "Map_has k m = (k \<in> set (map fst m))"

fun Map_set :: "'k \<Rightarrow> 'v \<Rightarrow> ('k \<times> 'v) list \<Rightarrow> ('k \<times> 'v) list" where
  "Map_set k v [] = [(k, v)]"
| "Map_set k v (e # m) = (if fst e = k then (k, v) # m else e # Map_set k v m)"

definition Map_delete :: "'k \<Rightarrow> ('k \<times> 'v) list \<Rightarrow> ('k \<times> 'v) list" where
  "Map_delete k m = filter (\<lambda>e. fst e \<noteq> k) m"

definition Map_keys :: "('k \<times> 'v) list \<Rightarrow> 'k list" where
  "Map_keys m = map fst m"

definition Set_add :: "'a \<Rightarrow> 'a list \<Rightarrow> 'a list" where
  "Set_add x xs = (if x \<in> set xs then xs else xs @ [x])"

definition Set_delete :: "'a \<Rightarrow> 'a list \<Rightarrow> 'a list" where
  "Set_delete x xs = filter (\<lambda>y. y \<noteq> x) xs"

subsection \<open>State\<close>

text \<open>The record that the message handler stores: \<^verbatim>\<open>{ ts, topic, raw, parsed }\<close>.\<close>

record telemetry =
  ts :: int
  topic :: string
  raw :: string
  parsed :: json

definition telemetry_obj :: "telemetry \<Rightarrow> json" where
  "telemetry_obj r =
     JObj [(''ts'', JNum (of_int (ts r))), (''topic'', JStr (topic r)),
           (''raw'', JStr (raw r)), (''parsed'', parsed r)]"

text \<open>
  A response object \<^verbatim>\<open>res\<close> is named by a number. The state of the bridge is the two
  maps of the program, \<^verbatim>\<open>latestByDevice\<close> and \<^verbatim>\<open>sseByDevice\<close>, and what surrounds
  them: \<open>wire\<close> lists every call \<^verbatim>\<open>res.write(chunk)\<close> in the order made, with its
  outcome, and \<open>broken\<close> lists the responses whose connection no longer takes data, on
  which a write fails. A failing \<^verbatim>\<open>res.write\<close> does not raise: it returns
  \<^verbatim>\<open>false\<close> and reports the error to a callback or an event, neither of which the
  program installs.
\<close>

type_synonym res = nat

record state =
  latestByDevice :: "(string \<times> telemetry) list"
  sseByDevice :: "(string \<times> res list) list"
  wire :: "(res \<times> string \<times> bool) list"
  broken :: "res list"

definition init_state :: state where
  "init_state = \<lparr>latestByDevice = [], sseByDevice = [], wire = [], broken = []\<rparr>"

subsection \<open>Topic router\<close>

text \<open>
  \<^verbatim>\<open>
  function getDeviceFromTopic(topic) {
    const parts = topic.split("/");
    if (parts.length < 3) return null;
    if (parts[0] !== TOPIC_PREFIX) return null;
    return parts[1];
  }
  \<close>
\<close>

definition getDeviceFromTopic :: "config \<Rightarrow> string \<Rightarrow> string option" where
  "getDeviceFromTopic C tpc =
     (let parts = split_on CHR ''/'' tpc
      in if length parts < 3 then None
         else if parts ! 0 \<noteq> TOPIC_PREFIX C then None
         else Some (parts ! 1))"

text \<open>
  \<^verbatim>\<open>
  function sseSend(res, event, obj) {
    res.write(`event: ${event}\n`);
    res.write(`data: ${JSON.stringify(obj)}\n\n`);
  }
  \<close>
  The value that \<^verbatim>\<open>res.write\<close> returns is dropped.
\<close>

definition res_write :: "res \<Rightarrow> string \<Rightarrow> state \<Rightarrow> state" where
  "res_write r chunk s = s\<lparr>wire := wire s @ [(r, chunk, r \<notin> set (broken s))]\<rparr>"

definition sseSend :: "runtime \<Rightarrow> res \<Rightarrow> string \<Rightarrow> json \<Rightarrow> state \<Rightarrow> state" where
  "sseSend L r event obj s =
     res_write r (''data: '' @ JSON_stringify L obj @ [CHR 0x0A, CHR 0x0A])
       (res_write r (''event: '' @ event @ [CHR 0x0A]) s)"

text \<open>
  The two entries that \<open>sseSend\<close> adds to \<open>wire\<close>, written out; \<open>bad\<close> is the
  list \<open>broken\<close> of the state.
\<close>

definition sse_writes :: "runtime \<Rightarrow> res list \<Rightarrow> res \<Rightarrow> string \<Rightarrow> json \<Rightarrow> (res \<times> string \<times> bool) list" where
  "sse_writes L bad r event obj =
     [(r, ''event: '' @ event @ [CHR 0x0A], r \<notin> set bad),
      (r, ''data: '' @ JSON_stringify L obj @ [CHR 0x0A, CHR 0x0A], r \<notin> set bad)]"

text \<open>
  \<^verbatim>\<open>
  mqttClient.on("message", (topic, payloadBuf) => {
    const device = getDeviceFromTopic(topic);
    if (!device) return;
    const raw = payloadBuf.toString("utf8");
    let parsed = null;
    try { parsed = JSON.parse(raw); } catch {}
    const record = { ts: Date.now(), topic, raw, parsed };
    latestByDevice.set(device, record);
    const clients = sseByDevice.get(device);
    if (clients) {
      for (const res of clients) sseSend(res, "telemetry", record);
    }
  });
  \<close>
\<close>

definition on_message :: "runtime \<Rightarrow> config \<Rightarrow> int \<Rightarrow> string \<Rightarrow> string \<Rightarrow> state \<Rightarrow> state" where
  "on_message L C now tpc payloadBuf s =
     (case getDeviceFromTopic C tpc of
        None \<Rightarrow> s
      | Some device \<Rightarrow>
          if device = [] then s
          else
            (let rawText = utf8_toString L payloadBuf;
                 parsedValue = (case JSON_parse L rawText of None \<Rightarrow> JNull | Some v \<Rightarrow> v);
                 record = \<lparr>ts = now, topic = tpc, raw = rawText, parsed = parsedValue\<rparr>;
                 s1 = s\<lparr>latestByDevice := Map_set device record (latestByDevice s)\<rparr>
             in case Map_get device (sseByDevice s1) of
                  None \<Rightarrow> s1
                | Some clients \<Rightarrow>
                    foldl (\<lambda>st r. sseSend L r ''telemetry'' (telemetry_obj record) st) s1 clients))"

subsection \<open>HTTP handlers behind \<^verbatim>\<open>requireAuth\<close>\<close>

datatype response = Json nat json | EventStream

text \<open>
  \<^verbatim>\<open>
  app.get("/api/devices", requireAuth, (req, res) => {
    res.json({ devices: Array.from(latestByDevice.keys()).sort() });
  });
  app.get("/api/state", requireAuth, (req, res) => {
    res.json({
      mqtt: { url: MQTT_URL, connected: !!mqttClient.connected },
      prefix: TOPIC_PREFIX,
      devices: Array.from(latestByDevice.keys())
    });
  });
  \<close>
  \<^verbatim>\<open>sort()\<close> without a comparator orders strings by the lexicographic order of
  their UTF-16 code units, and is stable. \<open>isConnected\<close> is the flag of the MQTT client.
\<close>

definition api_devices :: "state \<Rightarrow> response" where
  "api_devices s =
     Json 200 (JObj [(''devices'',
       JArr (map JStr (sort_key utf16_units (Map_keys (latestByDevice s)))))])"

definition api_state :: "config \<Rightarrow> bool \<Rightarrow> state \<Rightarrow> response" where
  "api_state C isConnected s =
     Json 200 (JObj [(''mqtt'', JObj [(''url'', JStr (MQTT_URL C)), (''connected'', JBool isConnected)]),
                     (''prefix'', JStr (TOPIC_PREFIX C)),
                     (''devices'', JArr (map JStr (Map_keys (latestByDevice s))))])"

text \<open>
  \<^verbatim>\<open>
  app.get("/api/stream/:device", requireAuth, (req, res) => {
    const device = String(req.params.device || "").trim();
    if (!device) return res.status(400).json({ error: "device required" });
    res.setHeader(...);
    const last = latestByDevice.get(device) || null;
    sseSend(res, "hello", { device, hasLast: !!last, last });
    if (!sseByDevice.has(device)) sseByDevice.set(device, new Set());
    sseByDevice.get(device).add(res);
    req.on("close", () => { ... });
  });
  \<close>
  \<open>EventStream\<close> is the response left open with the three headers of an event stream.
  \<^verbatim>\<open>sseByDevice.get(device).add(res)\<close> would raise a \<^verbatim>\<open>TypeError\<close> on a missing
  entry; the model keeps that branch.
\<close>

definition hello_obj :: "string \<Rightarrow> telemetry option \<Rightarrow> json" where
  "hello_obj device lastRecord =
     JObj [(''device'', JStr device), (''hasLast'', JBool (lastRecord \<noteq> None)),
           (''last'', (case lastRecord of None \<Rightarrow> JNull | Some r \<Rightarrow> telemetry_obj r))]"

definition api_stream :: "runtime \<Rightarrow> string \<Rightarrow> res \<Rightarrow> state \<Rightarrow> js_error + response \<times> state" where
  "api_stream L param r s =
     (let device = String_trim L param
      in if device = [] then Inr (Json 400 (JObj [(''error'', JStr ''device required'')]), s)
         else
           (let lastRecord = Map_get device (latestByDevice s);
                s1 = sseSend L r ''hello'' (hello_obj device lastRecord) s;
                m1 = (if \<not> Map_has device (sseByDevice s1)
                      then Map_set device [] (sseByDevice s1) else sseByDevice s1)
            in case Map_get device m1 of
                 None \<Rightarrow> Inl TypeError
               | Some members \<Rightarrow>
                   Inr (EventStream, s1\<lparr>sseByDevice := Map_set device (Set_add r members) m1\<rparr>)))"

text \<open>
  The listener that the stream handler installs, with the \<^verbatim>\<open>device\<close> and \<^verbatim>\<open>res\<close>
  it closes over:
  \<^verbatim>\<open>
  req.on("close", () => {
    const set = sseByDevice.get(device);
    if (set) {
      set.delete(res);
      if (set.size === 0) sseByDevice.delete(device);
    }
  });
  \<close>
\<close>

definition on_close :: "string \<Rightarrow> res \<Rightarrow> state \<Rightarrow> state" where
  "on_close device r s =
     (case Map_get device (sseByDevice s) of
        None \<Rightarrow> s
      | Some members \<Rightarrow>
          (let members' = Set_delete r members;
               m1 = Map_set device members' (sseByDevice s)
           in if length members' = 0 then s\<lparr>sseByDevice := Map_delete device m1\<rparr>
              else s\<lparr>sseByDevice := m1\<rparr>))"

subsection \<open>The event loop\<close>

text \<open>
  Every handler runs to its end before the next event is taken. The events are a bus
  message (with the clock's value when it is handled), a stream request that passed
  \<^verbatim>\<open>requireAuth\<close>, the close of a request, and a connection that stops taking data.
\<close>

datatype event =
    BusMessage int string string
  | StreamRequest string res
  | RequestClosed string res
  | ConnectionLost res

fun step :: "runtime \<Rightarrow> config \<Rightarrow> state \<Rightarrow> event \<Rightarrow> state" where
  "step L C s (BusMessage now tpc payloadBuf) = on_message L C now tpc payloadBuf s"
| "step L C s (StreamRequest param r) =
     (case api_stream L param r s of Inl e \<Rightarrow> s | Inr (reply, s') \<Rightarrow> s')"
| "step L C s (RequestClosed device r) = on_close device r s"
| "step L C s (ConnectionLost r) = s\<lparr>broken := r # broken s\<rparr>"

definition run :: "runtime \<Rightarrow> config \<Rightarrow> event list \<Rightarrow> state" where
  "run L C evs = foldl (step L C) init_state evs"

section \<open>A sample runtime\<close>

text \<open>
  The theorems below hold for every runtime. To run the model on concrete tokens and
  messages, this section gives one: base64url as Node.js computes it, a serialiser for
  JSON documents whose numbers are integers and whose strings need no escape, a parser
  that recognises the serialised form of the documents listed in \<open>sample_documents\<close> and
  rejects every other text, a keyed checksum in the place of HMAC-SHA256, \<open>trim\<close>
  for ASCII white space, and \<open>utf8_decode\<close> for \<^verbatim>\<open>toString("utf8")\<close>. No string is
  converted to a number: every \<open>ToNumber\<close> is NaN.
\<close>

subsection \<open>base64url\<close>

text \<open>
  Three bytes become four characters of the alphabet, six bits each; no padding is
  written, and a character outside the alphabet is skipped when decoding.
\<close>

definition base64url_alphabet :: string where
  "base64url_alphabet = ''ABCDEFGHIJKLMNOPQRSTUVWXYZabcdefghijklmnopqrstuvwxyz0123456789-_''"

fun sextets :: "nat list \<Rightarrow> nat list" where
  "sextets (a # b # c # rest) =
     [a div 4, (a mod 4) * 16 + b div 16, (b mod 16) * 4 + c div 64, c mod 64] @ sextets rest"
| "sextets [a, b] = [a div 4, (a mod 4) * 16 + b div 16, (b mod 16) * 4]"
| "sextets [a] = [a div 4, (a mod 4) * 16]"
| "sextets [] = []"

fun octets :: "nat list \<Rightarrow> nat list" where
  "octets (p # q # r # t # rest) =
     [p * 4 + q div 16, (q mod 16) * 16 + r div 4, (r mod 4) * 64 + t] @ octets rest"
| "octets [p, q, r] = [p * 4 + q div 16, (q mod 16) * 16 + r div 4]"
| "octets [p, q] = [p * 4 + q div 16]"
| "octets _ = []"

fun index_of :: "'a \<Rightarrow> 'a list \<Rightarrow> nat option" where
  "index_of x [] = None"
| "index_of x (y # ys) = (if x = y then Some 0 else map_option Suc (index_of x ys))"

definition sample_to_base64url :: "string \<Rightarrow> string" where
  "sample_to_base64url s = map (\<lambda>v. base64url_alphabet ! v) (sextets (map of_char s))"

definition sample_from_base64url :: "string \<Rightarrow> string" where
  "sample_from_base64url s =
     map char_of (octets (concat (map (\<lambda>c. case index_of c base64url_alphabet of None \<Rightarrow> [] | Some v \<Rightarrow> [v]) s)))"

subsection \<open>JSON text\<close>

text \<open>
  \<open>sample_stringify\<close> writes a document without white space, an integer in decimal and
  a string between double quotes as it is. \<open>sample_parse\<close> looks the text up among the
  serialised \<open>sample_documents\<close>.
\<close>

definition digit_char :: "int \<Rightarrow> char" where
  "digit_char d = ''0123456789'' ! nat d"

function show_digits :: "int \<Rightarrow> string" where
  "show_digits n =
     (if n < 10 then [digit_char n] else show_digits (n div 10) @ [digit_char (n mod 10)])"
  by pat_completeness auto
termination
  by (relation "measure nat") auto

definition show_int :: "int \<Rightarrow> string" where
  "show_int i = (if i < 0 then ''-'' @ show_digits (- i) else show_digits i)"

fun join_with :: "string \<Rightarrow> string list \<Rightarrow> string" where
  "join_with sep [] = []"
| "join_with sep [x] = x"
| "join_with sep (x # y # ys) = x @ sep @ join_with sep (y # ys)"

definition quoted :: "string \<Rightarrow> string" where
  "quoted s = [CHR 0x22] @ s @ [CHR 0x22]"

fun sample_stringify :: "json \<Rightarrow> string" where
  "sample_stringify JNull = ''null''"
| "sample_stringify (JBool b) = (if b then ''true'' else ''false'')"
| "sample_stringify (JNum q) = show_int \<lfloor>q\<rfloor>"
| "sample_stringify (JStr s) = quoted s"
| "sample_stringify (JArr vs) = ''['' @ join_with '','' (map sample_stringify vs) @ '']''"
| "sample_stringify (JObj kvs) =
     ''{'' @ join_with '','' (map (\<lambda>(k, v). quoted k @ '':'' @ sample_stringify v) kvs) @ ''}''"

definition sample_documents :: "json list" where
  "sample_documents =
     [login_payload ''admin'' 1000,
      JObj [(''temp'', JNum 21)],
      JNum 21,
      JObj [(''u'', JStr ''admin''), (''exp'', JStr ''never'')]]"

definition sample_parse :: "string \<Rightarrow> json option" where
  "sample_parse s = find (\<lambda>v. sample_stringify v = s) sample_documents"

subsection \<open>Checksum, trim and the runtime\<close>

text \<open>
  \<open>sample_hmac\<close> is a polynomial checksum of key and data, printed in decimal: it
  stands where the HMAC stands and claims none of its strength.
\<close>

definition sample_hmac :: "string \<Rightarrow> string \<Rightarrow> string" where
  "sample_hmac key data =
     show_int (foldl (\<lambda>acc c. (acc * 31 + of_char c) mod 1000003) 7 (key @ data))"

definition ascii_space :: "char \<Rightarrow> bool" where
  "ascii_space c = (c \<in> set [CHR 0x20, CHR 0x09, CHR 0x0A, CHR 0x0B, CHR 0x0C, CHR 0x0D])"

definition sample_trim :: "string \<Rightarrow> string" where
  "sample_trim s = rev (dropWhile ascii_space (rev (dropWhile ascii_space s)))"

definition sample_runtime :: runtime where
  "sample_runtime =
     \<lparr>hmac_sha256 = sample_hmac,
      to_base64url = sample_to_base64url,
      from_base64url = sample_from_base64url,
      JSON_stringify = sample_stringify,
      JSON_parse = sample_parse,
      ToNumber = (\<lambda>v. None),
      utf8_toString = utf8_decode,
      String_trim = sample_trim\<rparr>"

definition sample_config :: config where
  "sample_config =
     \<lparr>MQTT_URL = ''mqtt://broker.hivemq.com:1883'',
      TOPIC_PREFIX = ''embarcatech'',
      DASH_USER = ''admin'',
      DASH_PASS = ''admin123'',
      AUTH_SECRET = ''CHANGE_ME_TO_A_LONG_RANDOM_SECRET_32+''\<rparr>"

section \<open>Properties of \<open>split_on\<close>\<close>

lemma split_on_not_Nil: "split_on c s \<noteq> []"
  by (induction s) (auto split: list.splits)

lemma split_on_Cons_other:
  "x \<noteq> c \<Longrightarrow> split_on c (x # xs) = (x # hd (split_on c xs)) # tl (split_on c xs)"
  using split_on_not_Nil [of c xs] by (cases "split_on c xs") simp_all

lemma split_on_single: "split_on c s = [p] \<longleftrightarrow> s = p \<and> c \<notin> set p"
proof (induction s arbitrary: p)
  case Nil
  then show ?case by auto
next
  case (Cons x xs)
  obtain a as where r: "split_on c xs = a # as"
    using split_on_not_Nil [of c xs] by (cases "split_on c xs") auto
  show ?case
  proof (cases "x = c")
    case True
    then show ?thesis using r by auto
  next
    case False
    have "split_on c (x # xs) = [p] \<longleftrightarrow> p = x # a \<and> as = []"
      using False r by (auto simp: split_on_Cons_other)
    also have "\<dots> \<longleftrightarrow> x # xs = p \<and> c \<notin> set p"
      using Cons.IH [of a] Cons.IH [of xs] r False by auto
    finally show ?thesis .
  qed
qed

lemma split_on_append_sep:
  "c \<notin> set p \<Longrightarrow> split_on c (p @ c # q) = p # split_on c q"
  by (induction p) (auto simp: split_on_Cons_other)


lemma split_on_glued:
  "split_on c (p @ c # q) = [p', q'] \<longleftrightarrow> p' = p \<and> q' = q \<and> c \<notin> set p \<and> c \<notin> set q"
proof (cases "c \<in> set p")
  case True
  then obtain u v where p: "p = u @ c # v" and nu: "c \<notin> set u"
    by (meson split_list_first)
  have "split_on c (p @ c # q) = u # split_on c (v @ c # q)"
    using split_on_append_sep [OF nu, of "v @ c # q"] p by simp
  moreover have "split_on c (v @ c # q) \<noteq> [q']"
    by (auto simp: split_on_single)
  ultimately show ?thesis using True by simp
next
  case False
  then show ?thesis
    by (auto simp: split_on_append_sep split_on_single)
qed

section \<open>Properties of the token codec\<close>

lemma verifyToken_never_raises: "verifyToken L C now token \<noteq> Inl e"
  by (simp add: verifyToken_def timingSafeEqual_def Let_def split: list.split sum.split)

lemma verifyToken_Some_iff:
  "verifyToken L C now token = Inr (Some obj) \<longleftrightarrow>
     (\<exists>payload sig. split_on CHR ''.'' token = [payload, sig]
        \<and> sig = hmac_sha256 L (AUTH_SECRET C) payload
        \<and> verifyToken_try L now payload = Inr (Some obj))"
  by (auto simp: verifyToken_def timingSafeEqual_def Let_def split: list.splits sum.splits)


lemma verifyToken_result:
  "verifyToken L C now token = Inr None \<or> (\<exists>obj. verifyToken L C now token = Inr (Some obj))"
  using verifyToken_never_raises [of L C now token]
  by (cases "verifyToken L C now token") auto

lemma verifyToken_glued:
  "verifyToken L C now (payload @ CHR ''.'' # sig) = Inr (Some obj) \<longleftrightarrow>
     CHR ''.'' \<notin> set payload \<and> sig = hmac_sha256 L (AUTH_SECRET C) payload
       \<and> CHR ''.'' \<notin> set sig
       \<and> verifyToken_try L now payload = Inr (Some obj)"
  by (auto simp: verifyToken_Some_iff split_on_glued)

lemma verifyToken_try_num:
  "JSON_parse L (from_base64url L payload) = Some obj \<Longrightarrow>
   get_prop obj ''exp'' = Inr (Some (JNum n)) \<Longrightarrow>
   verifyToken_try L now payload = (if n = 0 \<or> n < of_int now then Inr None else Inr (Some obj))"
  by (simp add: verifyToken_try_def truthy_def now_gt_def)

lemma verifyToken_glued_eq:
  assumes "CHR ''.'' \<notin> set payload" and "CHR ''.'' \<notin> set sig"
    and "sig = hmac_sha256 L (AUTH_SECRET C) payload"
  shows "verifyToken L C now (payload @ ''.'' @ sig) =
           (case verifyToken_try L now payload of Inl e \<Rightarrow> Inr None | Inr r \<Rightarrow> Inr r)"
proof -
  have "split_on CHR ''.'' (payload @ ''.'' @ sig) = [payload, sig]"
    using assms(1,2) by (simp add: split_on_glued)
  then show ?thesis
    using assms(3) by (simp add: verifyToken_def timingSafeEqual_def)
qed

lemma verifyToken_wrong_code:
  assumes "sig \<noteq> hmac_sha256 L (AUTH_SECRET C) payload"
  shows "verifyToken L C now (payload @ ''.'' @ sig) = Inr None"
proof -
  have "verifyToken L C now (payload @ ''.'' @ sig) \<noteq> Inr (Some obj)" for obj
    using assms by (simp add: verifyToken_glued)
  then show ?thesis
    using verifyToken_result [of L C now "payload @ ''.'' @ sig"] by auto
qed







subsection \<open>Issuing and verifying\<close>

lemma signToken_parts:
  "signToken L C obj =
     b64url L (JSON_stringify L obj) @ CHR ''.'' #
       hmac_sha256 L (AUTH_SECRET C) (b64url L (JSON_stringify L obj))"
  by (simp add: signToken_def Let_def)

lemma verify_signToken:
  assumes parse: "JSON_parse L (JSON_stringify L obj) = Some obj"
    and decode: "from_base64url L (to_base64url L (JSON_stringify L obj)) = JSON_stringify L obj"
    and payload_alphabet: "CHR ''.'' \<notin> set (to_base64url L (JSON_stringify L obj))"
    and code_alphabet:
      "CHR ''.'' \<notin> set (hmac_sha256 L (AUTH_SECRET C) (to_base64url L (JSON_stringify L obj)))"
    and expires: "get_prop obj ''exp'' = Inr (Some (JNum n))"
  shows "verifyToken L C now (signToken L C obj) =
           (if n = 0 \<or> n < of_int now then Inr None else Inr (Some obj))"
proof -
  let ?payload = "to_base64url L (JSON_stringify L obj)"
  have "verifyToken L C now (?payload @ ''.'' @ hmac_sha256 L (AUTH_SECRET C) ?payload) =
          (case verifyToken_try L now ?payload of Inl e \<Rightarrow> Inr None | Inr r \<Rightarrow> Inr r)"
    using payload_alphabet code_alphabet by (intro verifyToken_glued_eq) simp_all
  moreover have "verifyToken_try L now ?payload =
      (if n = 0 \<or> n < of_int now then Inr None else Inr (Some obj))"
    using parse decode expires by (intro verifyToken_try_num) simp_all
  ultimately show ?thesis
    by (simp add: signToken_parts b64url_def)
qed

lemma post_login_token:
  "post_login L C now user pass = Some token \<longleftrightarrow>
     user = DASH_USER C \<and> pass = DASH_PASS C
       \<and> token = signToken L C (login_payload (DASH_USER C) (now + 43200000))"
  by (auto simp: post_login_def)

text \<open>
  Claim C2, as the code has it. Take any identity, a clock \<open>t0 \<ge> 0\<close> at issuance and any
  positive \<open>ttl\<close>, and a runtime whose base64url and JSON functions reproduce the payload
  \<^verbatim>\<open>{ u: identity, exp: t0 + ttl }\<close> and emit no dot. The token signed for that payload
  verifies to the same payload, with the same identity, at every time \<open>t \<le> t0 + ttl\<close>,
  and is refused at every later time. The login handler issues such a token with
  \<open>ttl\<close> twelve hours (\<open>post_login_token\<close>).
\<close>

theorem issued_token_verifies:
  fixes t0 ttl t :: int
  assumes "obj = login_payload identity (t0 + ttl)"
    and "JSON_parse L (JSON_stringify L obj) = Some obj"
    and "from_base64url L (to_base64url L (JSON_stringify L obj)) = JSON_stringify L obj"
    and "CHR ''.'' \<notin> set (to_base64url L (JSON_stringify L obj))"
    and "CHR ''.'' \<notin> set (hmac_sha256 L (AUTH_SECRET C) (to_base64url L (JSON_stringify L obj)))"
    and "0 \<le> t0" and "0 < ttl"
  shows "verifyToken L C t (signToken L C obj) =
           (if t \<le> t0 + ttl then Inr (Some obj) else Inr None)
         \<and> get_prop obj ''u'' = Inr (Some (JStr identity))"
proof -
  have ex: "get_prop obj ''exp'' = Inr (Some (JNum (of_int (t0 + ttl))))"
    and u: "get_prop obj ''u'' = Inr (Some (JStr identity))"
    using assms(1) by (simp_all add: login_payload_def get_prop_def)
  have nz: "(of_int (t0 + ttl) :: rat) \<noteq> 0"
    using assms(6,7) by simp
  have "verifyToken L C t (signToken L C obj) =
          (if (of_int (t0 + ttl) :: rat) = 0 \<or> (of_int (t0 + ttl) :: rat) < of_int t
           then Inr None else Inr (Some obj))"
    using assms(2-5) ex by (rule verify_signToken)
  also have "\<dots> = (if t \<le> t0 + ttl then Inr (Some obj) else Inr None)"
    using nz by (auto simp: not_less)
  finally show ?thesis
    using u by simp
qed

text \<open>
  Claim C2, witness: issued at 400 for 600 milliseconds, the token of \<open>admin\<close> verifies
  at 700 and is refused at 1001.
\<close>

theorem issued_token_verifies_witness:
  "login_payload ''admin'' 1000 = login_payload ''admin'' (400 + 600)
   \<and> JSON_parse sample_runtime (JSON_stringify sample_runtime (login_payload ''admin'' 1000))
       = Some (login_payload ''admin'' 1000)
   \<and> from_base64url sample_runtime
        (to_base64url sample_runtime (JSON_stringify sample_runtime (login_payload ''admin'' 1000)))
       = JSON_stringify sample_runtime (login_payload ''admin'' 1000)
   \<and> CHR ''.'' \<notin> set (to_base64url sample_runtime
        (JSON_stringify sample_runtime (login_payload ''admin'' 1000)))
   \<and> CHR ''.'' \<notin> set (hmac_sha256 sample_runtime (AUTH_SECRET sample_config)
        (to_base64url sample_runtime (JSON_stringify sample_runtime (login_payload ''admin'' 1000))))
   \<and> (0::int) \<le> 400 \<and> (0::int) < 600
   \<and> verifyToken sample_runtime sample_config 700
        (signToken sample_runtime sample_config (login_payload ''admin'' 1000))
       = Inr (Some (login_payload ''admin'' 1000))
   \<and> verifyToken sample_runtime sample_config 1001
        (signToken sample_runtime sample_config (login_payload ''admin'' 1000))
       = Inr None
   \<and> get_prop (login_payload ''admin'' 1000) ''u'' = Inr (Some (JStr ''admin''))"
proof -
  let ?obj = "login_payload ''admin'' 1000"
  have h1: "?obj = login_payload ''admin'' (400 + 600)"
    by simp
  have h2: "JSON_parse sample_runtime (JSON_stringify sample_runtime ?obj) = Some ?obj"
    by code_simp
  have h3: "from_base64url sample_runtime
        (to_base64url sample_runtime (JSON_stringify sample_runtime ?obj))
       = JSON_stringify sample_runtime ?obj"
    by code_simp
  have h4: "CHR ''.'' \<notin> set (to_base64url sample_runtime (JSON_stringify sample_runtime ?obj))"
    by code_simp
  have h5: "CHR ''.'' \<notin> set (hmac_sha256 sample_runtime (AUTH_SECRET sample_config)
        (to_base64url sample_runtime (JSON_stringify sample_runtime ?obj)))"
    by code_simp
  have h6: "(0::int) \<le> 400" and h7: "(0::int) < 600"
    by simp_all
  note inst = issued_token_verifies [OF h1 h2 h3 h4 h5 h6 h7]
  have "verifyToken sample_runtime sample_config 700
          (signToken sample_runtime sample_config ?obj) = Inr (Some ?obj)"
    using inst [of 700] by simp
  moreover have "verifyToken sample_runtime sample_config 1001
          (signToken sample_runtime sample_config ?obj) = Inr None"
    using inst [of 1001] by simp
  moreover have "get_prop ?obj ''u'' = Inr (Some (JStr ''admin''))"
    using inst [of 0] by simp
  ultimately show ?thesis
    using h1 h2 h3 h4 h5 h6 h7 by blast
qed

text \<open>
  Claim C2, counterexample: issued at 400 with a lifetime of 600, the token is verified
  at 1000, when the whole lifetime has elapsed, and is still accepted.
\<close>

theorem issued_token_after_ttl_counterexample:
  "verifyToken sample_runtime sample_config (400 + 600)
     (signToken sample_runtime sample_config (login_payload ''admin'' (400 + 600)))
   = Inr (Some (login_payload ''admin'' (400 + 600)))"
  by code_simp

text \<open>
  Claim C3. Let \<open>payload.sig\<close> be the token issued for \<open>obj\<close>. Replacing the code by
  any other string \<open>sig'\<close>, of the same length or not, makes verification fail; so does
  replacing the payload by any \<open>payload'\<close>, of the same length or not, whose recomputed
  code is not \<open>sig\<close>. The comparison is by value: no condition on lengths occurs.
\<close>

theorem tampered_token_rejected:
  assumes "payload = b64url L (JSON_stringify L obj)"
    and "sig = hmac_sha256 L (AUTH_SECRET C) payload"
  shows "signToken L C obj = payload @ ''.'' @ sig
         \<and> (sig' \<noteq> sig \<longrightarrow> verifyToken L C now (payload @ ''.'' @ sig') = Inr None)
         \<and> (hmac_sha256 L (AUTH_SECRET C) payload' \<noteq> sig \<longrightarrow>
              verifyToken L C now (payload' @ ''.'' @ sig) = Inr None)"
proof (intro conjI impI)
  show "signToken L C obj = payload @ ''.'' @ sig"
    using assms by (simp add: signToken_parts)
next
  assume "sig' \<noteq> sig"
  then show "verifyToken L C now (payload @ ''.'' @ sig') = Inr None"
    using assms(2) by (intro verifyToken_wrong_code) simp
next
  assume "hmac_sha256 L (AUTH_SECRET C) payload' \<noteq> sig"
  then show "verifyToken L C now (payload' @ ''.'' @ sig) = Inr None"
    by (intro verifyToken_wrong_code) auto
qed

text \<open>
  Claim C3, witness: the last character of the code changed from \<open>3\<close> to \<open>2\<close> (one
  bit), and the payload replaced by one of the same length with another expiry.
\<close>

theorem tampered_token_rejected_witness:
  "''eyJ1IjoiYWRtaW4iLCJleHAiOjEwMDB9''
     = b64url sample_runtime (JSON_stringify sample_runtime (login_payload ''admin'' 1000))
   \<and> ''963963'' = hmac_sha256 sample_runtime (AUTH_SECRET sample_config) ''eyJ1IjoiYWRtaW4iLCJleHAiOjEwMDB9''
   \<and> ''963962'' \<noteq> ''963963''
   \<and> length ''963962'' = length ''963963''
   \<and> hmac_sha256 sample_runtime (AUTH_SECRET sample_config) ''eyJ1IjoiYWRtaW4iLCJleHAiOjk5OTl9''
       \<noteq> ''963963''
   \<and> length ''eyJ1IjoiYWRtaW4iLCJleHAiOjk5OTl9'' = length ''eyJ1IjoiYWRtaW4iLCJleHAiOjEwMDB9''
   \<and> signToken sample_runtime sample_config (login_payload ''admin'' 1000)
       = ''eyJ1IjoiYWRtaW4iLCJleHAiOjEwMDB9'' @ ''.'' @ ''963963''
   \<and> verifyToken sample_runtime sample_config 500
        (''eyJ1IjoiYWRtaW4iLCJleHAiOjEwMDB9'' @ ''.'' @ ''963962'') = Inr None
   \<and> verifyToken sample_runtime sample_config 500
        (''eyJ1IjoiYWRtaW4iLCJleHAiOjk5OTl9'' @ ''.'' @ ''963963'') = Inr None"
proof -
  have h1: "''eyJ1IjoiYWRtaW4iLCJleHAiOjEwMDB9''
     = b64url sample_runtime (JSON_stringify sample_runtime (login_payload ''admin'' 1000))"
    by code_simp
  have h2: "''963963'' = hmac_sha256 sample_runtime (AUTH_SECRET sample_config) ''eyJ1IjoiYWRtaW4iLCJleHAiOjEwMDB9''"
    by code_simp
  have h3: "''963962'' \<noteq> ''963963''" "length ''963962'' = length ''963963''"
    by simp_all
  have h4: "hmac_sha256 sample_runtime (AUTH_SECRET sample_config) ''eyJ1IjoiYWRtaW4iLCJleHAiOjk5OTl9''
       \<noteq> ''963963''"
    by code_simp
  have h5: "length ''eyJ1IjoiYWRtaW4iLCJleHAiOjk5OTl9'' = length ''eyJ1IjoiYWRtaW4iLCJleHAiOjEwMDB9''"
    by simp
  note inst = tampered_token_rejected [OF h1 h2, of "''963962''" 500 "''eyJ1IjoiYWRtaW4iLCJleHAiOjk5OTl9''"]
  show ?thesis
    using inst h1 h2 h3 h4 h5 by blast
qed

section \<open>Properties of the bridge\<close>

lemma Map_get_set_same: "Map_get k (Map_set k v m) = Some v"
  by (induction m) (auto simp: Map_get_def)

lemma Map_get_set_other: "k' \<noteq> k \<Longrightarrow> Map_get k' (Map_set k v m) = Map_get k' m"
  by (induction m) (auto simp: Map_get_def)

lemma Map_keys_set:
  "Map_keys (Map_set k v m) = (if k \<in> set (Map_keys m) then Map_keys m else Map_keys m @ [k])"
  by (induction m) (auto simp: Map_keys_def)

lemma Map_set_twice: "Map_set k v (Map_set k w m) = Map_set k v m"
  by (induction m) auto

lemma distinct_Map_keys_set: "distinct (Map_keys m) \<Longrightarrow> distinct (Map_keys (Map_set k v m))"
  by (simp add: Map_keys_set)

lemma set_Map_keys_set: "set (Map_keys (Map_set k v m)) = insert k (set (Map_keys m))"
  by (auto simp: Map_keys_set)

lemma no_entries_of_key:
  "k \<notin> set (Map_keys m) \<Longrightarrow> filter (\<lambda>e. fst e = k) m = []"
  by (induction m) (auto simp: Map_keys_def)

lemma entries_of_key:
  "distinct (Map_keys m) \<Longrightarrow> length (filter (\<lambda>e. fst e = k) m) \<le> 1"
proof (induction m)
  case Nil
  then show ?case by simp
next
  case (Cons e m)
  show ?case
  proof (cases "fst e = k")
    case True
    then have "k \<notin> set (Map_keys m)"
      using Cons.prems by (simp add: Map_keys_def)
    then show ?thesis
      using True by (simp add: no_entries_of_key)
  next
    case False
    then show ?thesis
      using Cons by (simp add: Map_keys_def)
  qed
qed

lemma entries_of_key_present:
  "k \<in> set (Map_keys m) \<Longrightarrow> 1 \<le> length (filter (\<lambda>e. fst e = k) m)"
  by (induction m) (auto simp: Map_keys_def)

lemma Map_has_get: "Map_has k m \<longleftrightarrow> Map_get k m \<noteq> None"
  by (simp add: Map_has_def Map_get_def map_of_eq_None_iff)

lemma sseSend_eq:
  "sseSend L r event obj s = s\<lparr>wire := wire s @ sse_writes L (broken s) r event obj\<rparr>"
  by (simp add: sseSend_def res_write_def sse_writes_def)

lemma foldl_sseSend:
  "foldl (\<lambda>st r. sseSend L r event obj st) s rs =
     s\<lparr>wire := wire s @ concat (map (\<lambda>r. sse_writes L (broken s) r event obj) rs)\<rparr>"
proof (induction rs arbitrary: s)
  case Nil
  then show ?case by simp
next
  case (Cons r rs)
  show ?case
    by (simp only: foldl_Cons Cons.IH) (simp add: sseSend_eq)
qed

lemma on_message_drop:
  "getDeviceFromTopic C tpc = None \<or> getDeviceFromTopic C tpc = Some [] \<Longrightarrow>
   on_message L C now tpc payloadBuf s = s"
  by (auto simp: on_message_def)

lemma on_message_accept:
  assumes "getDeviceFromTopic C tpc = Some device" and "device \<noteq> []"
    and "record = \<lparr>ts = now, topic = tpc, raw = utf8_toString L payloadBuf,
           parsed = (case JSON_parse L (utf8_toString L payloadBuf) of None \<Rightarrow> JNull | Some v \<Rightarrow> v)\<rparr>"
  shows "on_message L C now tpc payloadBuf s =
    s\<lparr>latestByDevice := Map_set device record (latestByDevice s),
      wire := wire s @ concat (map (\<lambda>r. sse_writes L (broken s) r ''telemetry'' (telemetry_obj record))
        (case Map_get device (sseByDevice s) of None \<Rightarrow> [] | Some clients \<Rightarrow> clients))\<rparr>"
  using assms by (simp add: on_message_def Let_def foldl_sseSend split: option.split)

lemma getDeviceFromTopic_Some_iff:
  "getDeviceFromTopic C tpc = Some device \<longleftrightarrow>
     3 \<le> length (split_on CHR ''/'' tpc) \<and> split_on CHR ''/'' tpc ! 0 = TOPIC_PREFIX C
       \<and> split_on CHR ''/'' tpc ! 1 = device"
  by (auto simp: getDeviceFromTopic_def Let_def)

lemma getDeviceFromTopic_None_iff:
  "getDeviceFromTopic C tpc = None \<longleftrightarrow>
     length (split_on CHR ''/'' tpc) < 3 \<or> split_on CHR ''/'' tpc ! 0 \<noteq> TOPIC_PREFIX C"
  by (auto simp: getDeviceFromTopic_def Let_def)


lemma on_message_store:
  "latestByDevice (on_message L C now tpc payloadBuf s) = latestByDevice s
   \<or> (\<exists>device r. device \<noteq> []
        \<and> latestByDevice (on_message L C now tpc payloadBuf s) = Map_set device r (latestByDevice s))"
proof -
  consider "getDeviceFromTopic C tpc = None \<or> getDeviceFromTopic C tpc = Some []"
    | device where "getDeviceFromTopic C tpc = Some device" "device \<noteq> []"
    by (cases "getDeviceFromTopic C tpc") auto
  then show ?thesis
  proof cases
    case 1
    then show ?thesis by (simp add: on_message_drop)
  next
    case 2
    then show ?thesis by (auto simp: on_message_accept [OF _ _ refl])
  qed
qed

lemma api_stream_store:
  "api_stream L param r s = Inr (reply, s') \<Longrightarrow> latestByDevice s' = latestByDevice s"
  by (auto simp: api_stream_def Let_def sseSend_eq split: if_splits option.splits)

lemma on_close_store [simp]: "latestByDevice (on_close device r s) = latestByDevice s"
  by (simp add: on_close_def Let_def split: option.split)

lemma step_store:
  "latestByDevice (step L C s e) = latestByDevice s
   \<or> (\<exists>device r. device \<noteq> []
        \<and> latestByDevice (step L C s e) = Map_set device r (latestByDevice s))"
proof (cases e)
  case (BusMessage now tpc payloadBuf)
  then show ?thesis using on_message_store [of L C now tpc payloadBuf s] by simp
next
  case (StreamRequest param r)
  then show ?thesis
    by (auto simp: api_stream_store split: sum.splits)
qed simp_all

lemma run_snoc: "run L C (evs @ [e]) = step L C (run L C evs) e"
  by (simp add: run_def)

lemma run_store_invariant:
  "distinct (Map_keys (latestByDevice (run L C evs))) \<and> [] \<notin> set (Map_keys (latestByDevice (run L C evs)))"
proof (induction evs rule: rev_induct)
  case Nil
  then show ?case by (simp add: run_def init_state_def Map_keys_def)
next
  case (snoc e evs)
  from step_store [of L C "run L C evs" e] show ?case
  proof
    assume "latestByDevice (step L C (run L C evs) e) = latestByDevice (run L C evs)"
    then show ?thesis using snoc by (simp add: run_snoc)
  next
    assume "\<exists>device r. device \<noteq> []
        \<and> latestByDevice (step L C (run L C evs) e) = Map_set device r (latestByDevice (run L C evs))"
    then show ?thesis using snoc
      by (auto simp: run_snoc distinct_Map_keys_set set_Map_keys_set)
  qed
qed

lemma two_messages_same_device:
  assumes "getDeviceFromTopic C tpc1 = Some device" and "getDeviceFromTopic C tpc2 = Some device"
    and "device \<noteq> []"
  shows "Map_get device (latestByDevice
           (on_message L C t2 tpc2 buf2 (on_message L C t1 tpc1 buf1 s))) =
         Some \<lparr>ts = t2, topic = tpc2, raw = utf8_toString L buf2,
               parsed = (case JSON_parse L (utf8_toString L buf2) of None \<Rightarrow> JNull | Some v \<Rightarrow> v)\<rparr>"
  using assms by (simp add: on_message_accept [OF _ _ refl] Map_get_set_same)

lemma one_entry_after_set:
  assumes "distinct (Map_keys m)"
  shows "length (filter (\<lambda>e. fst e = k) (Map_set k v m)) = 1"
proof -
  have "length (filter (\<lambda>e. fst e = k) (Map_set k v m)) \<le> 1"
    using assms by (intro entries_of_key distinct_Map_keys_set)
  moreover have "1 \<le> length (filter (\<lambda>e. fst e = k) (Map_set k v m))"
    by (intro entries_of_key_present) (simp add: set_Map_keys_set)
  ultimately show ?thesis by simp
qed

text \<open>
  Claim C4. After \<^verbatim>\<open>set(d, r1)\<close> and then \<^verbatim>\<open>set(d, r2)\<close> on any store, \<^verbatim>\<open>get(d)\<close> is
  \<open>r2\<close>. On every store that the event loop can reach, the two writes leave exactly one
  entry for \<open>d\<close>, and at every instant no device has more than one entry. In the
  handler: of two bus messages for the same device, handled one after the other, the
  store keeps the record built from the second.
\<close>

theorem latest_record_wins:
  "Map_get d (Map_set d r2 (Map_set d r1 m)) = Some r2
   \<and> length (filter (\<lambda>e. fst e = d)
        (Map_set d r2 (Map_set d r1 (latestByDevice (run L C evs))))) = 1
   \<and> (\<forall>d'. length (filter (\<lambda>e. fst e = d') (latestByDevice (run L C evs))) \<le> 1)
   \<and> (getDeviceFromTopic C tpc1 = Some d \<and> getDeviceFromTopic C tpc2 = Some d \<and> d \<noteq> [] \<longrightarrow>
        Map_get d (latestByDevice (on_message L C t2 tpc2 buf2 (on_message L C t1 tpc1 buf1 s))) =
          Some \<lparr>ts = t2, topic = tpc2, raw = utf8_toString L buf2,
                parsed = (case JSON_parse L (utf8_toString L buf2) of None \<Rightarrow> JNull | Some v \<Rightarrow> v)\<rparr>)"
proof (intro conjI allI impI)
  show "Map_get d (Map_set d r2 (Map_set d r1 m)) = Some r2"
    by (rule Map_get_set_same)
next
  have "distinct (Map_keys (Map_set d r1 (latestByDevice (run L C evs))))"
    using run_store_invariant [of L C evs] by (simp add: distinct_Map_keys_set)
  then show "length (filter (\<lambda>e. fst e = d)
        (Map_set d r2 (Map_set d r1 (latestByDevice (run L C evs))))) = 1"
    by (rule one_entry_after_set)
next
  fix d'
  show "length (filter (\<lambda>e. fst e = d') (latestByDevice (run L C evs))) \<le> 1"
    using run_store_invariant [of L C evs] entries_of_key [of "latestByDevice (run L C evs)" d']
    by simp
next
  assume "getDeviceFromTopic C tpc1 = Some d \<and> getDeviceFromTopic C tpc2 = Some d \<and> d \<noteq> []"
  then show "Map_get d (latestByDevice (on_message L C t2 tpc2 buf2 (on_message L C t1 tpc1 buf1 s))) =
          Some \<lparr>ts = t2, topic = tpc2, raw = utf8_toString L buf2,
                parsed = (case JSON_parse L (utf8_toString L buf2) of None \<Rightarrow> JNull | Some v \<Rightarrow> v)\<rparr>"
    using two_messages_same_device by blast
qed

text \<open>
  Claim C4, witness: two messages for \<open>pico\<close>; the store holds one entry, the record
  of the second.
\<close>

theorem latest_record_wins_witness:
  "getDeviceFromTopic sample_config ''embarcatech/pico/telemetry'' = Some ''pico''
   \<and> latestByDevice
        (on_message sample_runtime sample_config 20 ''embarcatech/pico/telemetry'' ''temp=22''
          (on_message sample_runtime sample_config 10 ''embarcatech/pico/telemetry'' ''{\"temp\":21}''
            init_state))
       = [(''pico'', \<lparr>ts = 20, topic = ''embarcatech/pico/telemetry'', raw = ''temp=22'', parsed = JNull\<rparr>)]
   \<and> Map_get ''pico'' (latestByDevice
        (on_message sample_runtime sample_config 20 ''embarcatech/pico/telemetry'' ''temp=22''
          (on_message sample_runtime sample_config 10 ''embarcatech/pico/telemetry'' ''{\"temp\":21}''
            init_state)))
       = Some \<lparr>ts = 20, topic = ''embarcatech/pico/telemetry'', raw = ''temp=22'', parsed = JNull\<rparr>"
proof -
  have h: "getDeviceFromTopic sample_config ''embarcatech/pico/telemetry'' = Some ''pico''"
    by code_simp
  have e: "latestByDevice
        (on_message sample_runtime sample_config 20 ''embarcatech/pico/telemetry'' ''temp=22''
          (on_message sample_runtime sample_config 10 ''embarcatech/pico/telemetry'' ''{\"temp\":21}''
            init_state))
       = [(''pico'', \<lparr>ts = 20, topic = ''embarcatech/pico/telemetry'', raw = ''temp=22'', parsed = JNull\<rparr>)]"
    by code_simp
  have p: "JSON_parse sample_runtime (utf8_toString sample_runtime ''temp=22'') = None"
    by code_simp
  have u: "utf8_toString sample_runtime ''temp=22'' = ''temp=22''"
    by code_simp
  have "Map_get ''pico'' (latestByDevice
        (on_message sample_runtime sample_config 20 ''embarcatech/pico/telemetry'' ''temp=22''
          (on_message sample_runtime sample_config 10 ''embarcatech/pico/telemetry'' ''{\"temp\":21}''
            init_state)))
       = Some \<lparr>ts = 20, topic = ''embarcatech/pico/telemetry'', raw = ''temp=22'', parsed = JNull\<rparr>"
    using latest_record_wins [of "''pico''" _ _ _ sample_runtime sample_config _
        "''embarcatech/pico/telemetry''" "''embarcatech/pico/telemetry''" 20 "''temp=22''" 10
        "''{\"temp\":21}''" init_state] h p u
    by simp
  then show ?thesis using h e by blast
qed

text \<open>
  Claim C5. A bus message whose topic has fewer than three segments, or whose first
  segment is not the configured prefix, leaves the whole state as it was: the store, the
  registry of subscribers and the list of writes.
\<close>

theorem unmatched_topic_discarded:
  "length (split_on CHR ''/'' tpc) < 3 \<or> split_on CHR ''/'' tpc ! 0 \<noteq> TOPIC_PREFIX C \<Longrightarrow>
   on_message L C now tpc payloadBuf s = s"
  by (simp add: on_message_drop getDeviceFromTopic_None_iff)

text \<open>
  Claim C5, witness: the topics \<open>other/sensor1/telemetry\<close> and \<open>embarcatech/sensor1\<close>,
  with a subscriber registered for \<open>sensor1\<close>.
\<close>

theorem unmatched_topic_discarded_witness:
  "split_on CHR ''/'' ''other/sensor1/telemetry'' ! 0 \<noteq> TOPIC_PREFIX sample_config
   \<and> on_message sample_runtime sample_config 10 ''other/sensor1/telemetry'' ''{\"temp\":21}''
        (run sample_runtime sample_config [StreamRequest ''sensor1'' 1])
       = run sample_runtime sample_config [StreamRequest ''sensor1'' 1]
   \<and> length (split_on CHR ''/'' ''embarcatech/sensor1'') < 3
   \<and> on_message sample_runtime sample_config 10 ''embarcatech/sensor1'' ''{\"temp\":21}''
        (run sample_runtime sample_config [StreamRequest ''sensor1'' 1])
       = run sample_runtime sample_config [StreamRequest ''sensor1'' 1]"
proof -
  have h1: "split_on CHR ''/'' ''other/sensor1/telemetry'' ! 0 \<noteq> TOPIC_PREFIX sample_config"
    by code_simp
  have h2: "length (split_on CHR ''/'' ''embarcatech/sensor1'') < 3"
    by code_simp
  show ?thesis
    using h1 h2
      unmatched_topic_discarded [of "''other/sensor1/telemetry''" sample_config]
      unmatched_topic_discarded [of "''embarcatech/sensor1''" sample_config]
    by blast
qed

text \<open>
  Claim C10. A bus message whose topic has at least three segments and the configured
  prefix, but an empty second segment, leaves the whole state as it was; and no run of the
  event loop ever stores a record under the empty identifier.
\<close>

theorem empty_device_discarded:
  assumes "3 \<le> length (split_on CHR ''/'' tpc)"
    and "split_on CHR ''/'' tpc ! 0 = TOPIC_PREFIX C"
    and "split_on CHR ''/'' tpc ! 1 = []"
  shows "on_message L C now tpc payloadBuf s = s
         \<and> [] \<notin> set (Map_keys (latestByDevice (run L C evs)))"
proof -
  have "getDeviceFromTopic C tpc = Some []"
    using assms by (simp add: getDeviceFromTopic_Some_iff)
  then show ?thesis
    using run_store_invariant [of L C evs] by (simp add: on_message_drop)
qed

text \<open>
  Claim C10, witness: the topic \<open>embarcatech//telemetry\<close>.
\<close>

theorem empty_device_discarded_witness:
  "3 \<le> length (split_on CHR ''/'' ''embarcatech//telemetry'')
   \<and> split_on CHR ''/'' ''embarcatech//telemetry'' ! 0 = TOPIC_PREFIX sample_config
   \<and> split_on CHR ''/'' ''embarcatech//telemetry'' ! 1 = []
   \<and> on_message sample_runtime sample_config 10 ''embarcatech//telemetry'' ''{\"temp\":21}''
        (run sample_runtime sample_config [StreamRequest ''sensor1'' 1])
       = run sample_runtime sample_config [StreamRequest ''sensor1'' 1]
   \<and> [] \<notin> set (Map_keys (latestByDevice (run sample_runtime sample_config
        [BusMessage 10 ''embarcatech//telemetry'' ''{\"temp\":21}''])))"
proof -
  have h1: "3 \<le> length (split_on CHR ''/'' ''embarcatech//telemetry'')"
    by code_simp
  have h2: "split_on CHR ''/'' ''embarcatech//telemetry'' ! 0 = TOPIC_PREFIX sample_config"
    by code_simp
  have h3: "split_on CHR ''/'' ''embarcatech//telemetry'' ! 1 = []"
    by code_simp
  show ?thesis
    using h1 h2 h3 empty_device_discarded [OF h1 h2 h3] by blast
qed

lemma utf8_tail_full:
  "length (utf8_tail n lo hi bs) = n \<Longrightarrow> utf8_tail n lo hi bs = take n bs"
proof (induction n lo hi bs rule: utf8_tail.induct)
  case (3 n lo hi b bs)
  then show ?case by (auto split: if_splits)
qed simp_all

lemma utf8_decode_well_formed:
  "well_formed_utf8 buf \<Longrightarrow> utf8_decode buf = buf"
proof (induction buf rule: utf8_decode.induct)
  case 1
  then show ?case by simp
next
  case (2 b bs)
  show ?case
  proof (cases "of_char b < (0x80 :: int)")
    case True
    then show ?thesis using 2 by simp
  next
    case False
    from "2.prems" False obtain n lo hi where lead: "utf8_lead (of_char b) = Some (n, lo, hi)"
      and full: "length (utf8_tail n lo hi bs) = n" and rest: "well_formed_utf8 (drop n bs)"
      by (auto split: option.splits)
    have "utf8_decode (drop n bs) = drop n bs"
      using "2.IH"(3) [OF False lead refl refl full] rest by simp
    moreover have "utf8_decode (b # bs) = b # utf8_tail n lo hi bs @ utf8_decode (drop n bs)"
      using False lead full by simp
    moreover have "utf8_tail n lo hi bs = take n bs"
      using full by (rule utf8_tail_full)
    ultimately show ?thesis
      by simp
  qed
qed

lemma ascii_well_formed:
  "\<forall>b \<in> set buf. of_char b < (0x80 :: int) \<Longrightarrow> well_formed_utf8 buf"
  by (induction buf) simp_all

text \<open>
  Claim C6, as the code has it. Take a topic that yields a device, a non-empty
  identifier, a runtime that decodes the body as Node.js does, and a body on which
  \<^verbatim>\<open>JSON.parse\<close> raises. The handler still builds the record, with \<open>parsed\<close>
  \<^verbatim>\<open>null\<close> and \<open>raw\<close> the body decoded as UTF-8, stores it for the device, and sends
  it as a \<open>telemetry\<close> event to every subscriber registered for the device. \<open>raw\<close> is
  the body byte for byte when the body is well-formed UTF-8, in particular when it is
  ASCII; an ill-formed part of the body is stored as U+FFFD.
\<close>

theorem unparseable_body_kept:
  assumes "getDeviceFromTopic C tpc = Some device" and "device \<noteq> []"
    and "utf8_toString L payloadBuf = utf8_decode payloadBuf"
    and "JSON_parse L (utf8_decode payloadBuf) = None"
    and "record = \<lparr>ts = now, topic = tpc, raw = utf8_decode payloadBuf, parsed = JNull\<rparr>"
    and "s' = on_message L C now tpc payloadBuf s"
  shows "latestByDevice s' = Map_set device record (latestByDevice s)
         \<and> Map_get device (latestByDevice s') = Some record
         \<and> wire s' = wire s @ concat (map
              (\<lambda>r. sse_writes L (broken s) r ''telemetry'' (telemetry_obj record))
              (case Map_get device (sseByDevice s) of None \<Rightarrow> [] | Some clients \<Rightarrow> clients))
         \<and> sseByDevice s' = sseByDevice s
         \<and> (well_formed_utf8 payloadBuf \<longrightarrow> raw record = payloadBuf)
         \<and> ((\<forall>b \<in> set payloadBuf. of_char b < (0x80 :: int)) \<longrightarrow> raw record = payloadBuf)"
proof -
  have "well_formed_utf8 payloadBuf \<longrightarrow> raw record = payloadBuf"
    using assms(5) by (simp add: utf8_decode_well_formed)
  moreover have "(\<forall>b \<in> set payloadBuf. of_char b < (0x80 :: int)) \<longrightarrow> raw record = payloadBuf"
    using assms(5) by (simp add: utf8_decode_well_formed ascii_well_formed)
  moreover have "latestByDevice s' = Map_set device record (latestByDevice s)
         \<and> Map_get device (latestByDevice s') = Some record
         \<and> wire s' = wire s @ concat (map
              (\<lambda>r. sse_writes L (broken s) r ''telemetry'' (telemetry_obj record))
              (case Map_get device (sseByDevice s) of None \<Rightarrow> [] | Some clients \<Rightarrow> clients))
         \<and> sseByDevice s' = sseByDevice s"
    using assms by (simp add: on_message_accept [OF _ _ refl] Map_get_set_same)
  ultimately show ?thesis by blast
qed


text \<open>
  Claim C6, witness: the body \<open>21\<close> followed by the degree sign (\<open>C2 B0\<close>), with one
  subscriber of \<open>pico\<close>.
\<close>

theorem unparseable_body_kept_witness:
  "getDeviceFromTopic sample_config ''embarcatech/pico/telemetry'' = Some ''pico''
   \<and> ''pico'' \<noteq> []
   \<and> utf8_toString sample_runtime (''21'' @ [CHR 0xC2, CHR 0xB0])
       = utf8_decode (''21'' @ [CHR 0xC2, CHR 0xB0])
   \<and> JSON_parse sample_runtime (utf8_decode (''21'' @ [CHR 0xC2, CHR 0xB0])) = None
   \<and> well_formed_utf8 (''21'' @ [CHR 0xC2, CHR 0xB0])
   \<and> Map_get ''pico'' (latestByDevice
        (on_message sample_runtime sample_config 20 ''embarcatech/pico/telemetry''
          (''21'' @ [CHR 0xC2, CHR 0xB0])
          (run sample_runtime sample_config [StreamRequest ''pico'' 1])))
      = Some \<lparr>ts = 20, topic = ''embarcatech/pico/telemetry'',
               raw = ''21'' @ [CHR 0xC2, CHR 0xB0], parsed = JNull\<rparr>
   \<and> wire (on_message sample_runtime sample_config 20 ''embarcatech/pico/telemetry''
          (''21'' @ [CHR 0xC2, CHR 0xB0])
          (run sample_runtime sample_config [StreamRequest ''pico'' 1]))
      = [(1, ''event: hello'' @ [CHR 0x0A], True),
         (1, ''data: {\"device\":\"pico\",\"hasLast\":false,\"last\":null}'' @ [CHR 0x0A, CHR 0x0A], True),
         (1, ''event: telemetry'' @ [CHR 0x0A], True),
         (1, ''data: {\"ts\":20,\"topic\":\"embarcatech/pico/telemetry\",\"raw\":\"21''
               @ [CHR 0xC2, CHR 0xB0] @ ''\",\"parsed\":null}'' @ [CHR 0x0A, CHR 0x0A], True)]"
proof -
  let ?body = "''21'' @ [CHR 0xC2, CHR 0xB0]"
  let ?s = "run sample_runtime sample_config [StreamRequest ''pico'' 1]"
  have h1: "getDeviceFromTopic sample_config ''embarcatech/pico/telemetry'' = Some ''pico''"
    by code_simp
  have h2: "''pico'' \<noteq> []"
    by simp
  have h3: "utf8_toString sample_runtime ?body = utf8_decode ?body"
    by (simp add: sample_runtime_def)
  have h4: "JSON_parse sample_runtime (utf8_decode ?body) = None"
    by code_simp
  have wf: "well_formed_utf8 ?body"
    by code_simp
  have w: "wire (on_message sample_runtime sample_config 20 ''embarcatech/pico/telemetry'' ?body ?s)
      = [(1, ''event: hello'' @ [CHR 0x0A], True),
         (1, ''data: {\"device\":\"pico\",\"hasLast\":false,\"last\":null}'' @ [CHR 0x0A, CHR 0x0A], True),
         (1, ''event: telemetry'' @ [CHR 0x0A], True),
         (1, ''data: {\"ts\":20,\"topic\":\"embarcatech/pico/telemetry\",\"raw\":\"21''
               @ [CHR 0xC2, CHR 0xB0] @ ''\",\"parsed\":null}'' @ [CHR 0x0A, CHR 0x0A], True)]"
    by code_simp
  note inst = unparseable_body_kept [OF h1 h2 h3 h4 refl refl, of 20 ?s]
  have same: "utf8_decode ?body = ?body"
    using inst [THEN conjunct2, THEN conjunct2, THEN conjunct2, THEN conjunct2, THEN conjunct1] wf
    by simp
  have "Map_get ''pico'' (latestByDevice
        (on_message sample_runtime sample_config 20 ''embarcatech/pico/telemetry'' ?body ?s))
      = Some \<lparr>ts = 20, topic = ''embarcatech/pico/telemetry'', raw = utf8_decode ?body, parsed = JNull\<rparr>"
    using inst [THEN conjunct2, THEN conjunct1] .
  then have "Map_get ''pico'' (latestByDevice
        (on_message sample_runtime sample_config 20 ''embarcatech/pico/telemetry'' ?body ?s))
      = Some \<lparr>ts = 20, topic = ''embarcatech/pico/telemetry'', raw = ?body, parsed = JNull\<rparr>"
    unfolding same .
  then show ?thesis
    using h1 h2 h3 h4 wf w by blast
qed

text \<open>
  Claim C6, counterexample: the body \<open>FF FE\<close> is stored as two U+FFFD, six bytes that
  are not the body; and a body that does not parse, on the topic
  \<open>embarcatech//telemetry\<close> with the prefix and three segments, is not stored at all.
\<close>

theorem unparseable_body_not_verbatim_counterexample:
  "JSON_parse sample_runtime (utf8_toString sample_runtime [CHR 0xFF, CHR 0xFE]) = None
   \<and> latestByDevice
        (on_message sample_runtime sample_config 20 ''embarcatech/pico/telemetry''
          [CHR 0xFF, CHR 0xFE] init_state)
      = [(''pico'', \<lparr>ts = 20, topic = ''embarcatech/pico/telemetry'',
                    raw = [CHR 0xEF, CHR 0xBF, CHR 0xBD, CHR 0xEF, CHR 0xBF, CHR 0xBD],
                    parsed = JNull\<rparr>)]
   \<and> JSON_parse sample_runtime (utf8_toString sample_runtime ''temp=22'') = None
   \<and> on_message sample_runtime sample_config 20 ''embarcatech//telemetry'' ''temp=22''
        (run sample_runtime sample_config [StreamRequest ''pico'' 1])
      = run sample_runtime sample_config [StreamRequest ''pico'' 1]"
  by code_simp



lemma api_stream_refuses_empty:
  "String_trim L param = [] \<Longrightarrow>
   api_stream L param r s = Inr (Json 400 (JObj [(''error'', JStr ''device required'')]), s)"
  by (simp add: api_stream_def)

lemma api_stream_accepts:
  assumes "device = String_trim L param" and "device \<noteq> []"
  shows "api_stream L param r s =
      Inr (EventStream,
        s\<lparr>wire := wire s @ sse_writes L (broken s) r ''hello''
                 (hello_obj device (Map_get device (latestByDevice s))),
          sseByDevice := Map_set device
            (Set_add r (case Map_get device (sseByDevice s) of None \<Rightarrow> [] | Some members \<Rightarrow> members))
            (sseByDevice s)\<rparr>)"
proof (cases "Map_get device (sseByDevice s)")
  case None
  then have "\<not> Map_has device (sseByDevice s)"
    by (simp add: Map_has_get)
  then show ?thesis
    using assms None
    by (simp add: api_stream_def Let_def sseSend_eq Map_get_set_same Map_set_twice)
next
  case (Some members)
  then have "Map_has device (sseByDevice s)"
    by (simp add: Map_has_get)
  then show ?thesis
    using assms Some
    by (simp add: api_stream_def Let_def sseSend_eq)
qed

text \<open>
  Claim C7, as the code has it. The device of a stream request is the parameter with
  surrounding white space trimmed. When it is not empty, the handler writes the
  \<open>hello\<close> event for it and only then registers the response: the event carries
  \<open>hasLast = true\<close> and the stored record when the store holds one under the trimmed
  identifier, and \<open>hasLast = false\<close> with \<open>last = null\<close> when it holds none. On a
  response not written to before, these two writes are all that it has received when the
  handler returns. (A parameter that trims to the empty string is refused with status
  400: \<open>api_stream_refuses_empty\<close>.)
\<close>

theorem stream_hello_first:
  assumes "device = String_trim L param" and "device \<noteq> []"
    and "lastRecord = Map_get device (latestByDevice s)"
    and "hello = sse_writes L (broken s) r ''hello'' (hello_obj device lastRecord)"
  shows "api_stream L param r s =
      Inr (EventStream,
        s\<lparr>wire := wire s @ hello,
          sseByDevice := Map_set device
            (Set_add r (case Map_get device (sseByDevice s) of None \<Rightarrow> [] | Some members \<Rightarrow> members))
            (sseByDevice s)\<rparr>)
    \<and> (\<forall>stored. lastRecord = Some stored \<longrightarrow>
          hello_obj device lastRecord =
            JObj [(''device'', JStr device), (''hasLast'', JBool True), (''last'', telemetry_obj stored)])
    \<and> (lastRecord = None \<longrightarrow>
          hello_obj device lastRecord =
            JObj [(''device'', JStr device), (''hasLast'', JBool False), (''last'', JNull)])
    \<and> ((\<forall>w \<in> set (wire s). fst w \<noteq> r) \<longrightarrow> filter (\<lambda>w. fst w = r) (wire s @ hello) = hello)"
proof (intro conjI allI impI)
  show "api_stream L param r s =
      Inr (EventStream,
        s\<lparr>wire := wire s @ hello,
          sseByDevice := Map_set device
            (Set_add r (case Map_get device (sseByDevice s) of None \<Rightarrow> [] | Some members \<Rightarrow> members))
            (sseByDevice s)\<rparr>)"
    using assms by (simp add: api_stream_accepts)
next
  fix stored
  assume "lastRecord = Some stored"
  then show "hello_obj device lastRecord =
      JObj [(''device'', JStr device), (''hasLast'', JBool True), (''last'', telemetry_obj stored)]"
    by (simp add: hello_obj_def)
next
  assume "lastRecord = None"
  then show "hello_obj device lastRecord =
      JObj [(''device'', JStr device), (''hasLast'', JBool False), (''last'', JNull)]"
    by (simp add: hello_obj_def)
next
  assume "\<forall>w \<in> set (wire s). fst w \<noteq> r"
  then have "filter (\<lambda>w. fst w = r) (wire s) = []"
    by (simp add: filter_empty_conv)
  moreover have "filter (\<lambda>w. fst w = r) hello = hello"
    using assms(4) by (simp add: sse_writes_def)
  ultimately show "filter (\<lambda>w. fst w = r) (wire s @ hello) = hello"
    by simp
qed

text \<open>
  Claim C7, witness: a request for \<open>pico\<close>, written with a leading blank, after one
  message for \<open>pico\<close>.
\<close>

theorem stream_hello_first_witness:
  "''pico'' = String_trim sample_runtime '' pico''
   \<and> ''pico'' \<noteq> []
   \<and> Some \<lparr>ts = 10, topic = ''embarcatech/pico/telemetry'', raw = ''21'', parsed = JNum 21\<rparr>
       = Map_get ''pico'' (latestByDevice (run sample_runtime sample_config
           [BusMessage 10 ''embarcatech/pico/telemetry'' ''21'']))
   \<and> [(3, ''event: hello'' @ [CHR 0x0A], True),
       (3, ''data: {\"device\":\"pico\",\"hasLast\":true,\"last\":{\"ts\":10,\"topic\":\"embarcatech/pico/telemetry\",\"raw\":\"21\",\"parsed\":21}}''
            @ [CHR 0x0A, CHR 0x0A], True)]
       = sse_writes sample_runtime
           (broken (run sample_runtime sample_config
             [BusMessage 10 ''embarcatech/pico/telemetry'' ''21''])) 3 ''hello''
           (hello_obj ''pico'' (Some \<lparr>ts = 10, topic = ''embarcatech/pico/telemetry'',
              raw = ''21'', parsed = JNum 21\<rparr>))
   \<and> api_stream sample_runtime '' pico'' 3 (run sample_runtime sample_config
         [BusMessage 10 ''embarcatech/pico/telemetry'' ''21''])
       = Inr (EventStream,
           \<lparr>latestByDevice =
              [(''pico'', \<lparr>ts = 10, topic = ''embarcatech/pico/telemetry'', raw = ''21'', parsed = JNum 21\<rparr>)],
            sseByDevice = [(''pico'', [3])],
            wire =
              [(3, ''event: hello'' @ [CHR 0x0A], True),
               (3, ''data: {\"device\":\"pico\",\"hasLast\":true,\"last\":{\"ts\":10,\"topic\":\"embarcatech/pico/telemetry\",\"raw\":\"21\",\"parsed\":21}}''
                    @ [CHR 0x0A, CHR 0x0A], True)],
            broken = []\<rparr>)"
proof -
  let ?s = "run sample_runtime sample_config
              [BusMessage 10 ''embarcatech/pico/telemetry'' ''21'']"
  let ?rec = "\<lparr>ts = 10, topic = ''embarcatech/pico/telemetry'', raw = ''21'', parsed = JNum 21\<rparr>"
  let ?hello = "[(3::nat, ''event: hello'' @ [CHR 0x0A], True),
       (3, ''data: {\"device\":\"pico\",\"hasLast\":true,\"last\":{\"ts\":10,\"topic\":\"embarcatech/pico/telemetry\",\"raw\":\"21\",\"parsed\":21}}''
            @ [CHR 0x0A, CHR 0x0A], True)]"
  have h1: "''pico'' = String_trim sample_runtime '' pico''"
    by code_simp
  have h2: "''pico'' \<noteq> []"
    by simp
  have h3: "Some ?rec = Map_get ''pico'' (latestByDevice ?s)"
    by code_simp
  have h4: "?hello = sse_writes sample_runtime (broken ?s) 3 ''hello'' (hello_obj ''pico'' (Some ?rec))"
    by code_simp
  have s: "?s = \<lparr>latestByDevice = [(''pico'', ?rec)], sseByDevice = [], wire = [], broken = []\<rparr>"
    by code_simp
  have "api_stream sample_runtime '' pico'' 3 ?s =
      Inr (EventStream,
        ?s\<lparr>wire := wire ?s @ ?hello,
          sseByDevice := Map_set ''pico''
            (Set_add 3 (case Map_get ''pico'' (sseByDevice ?s) of None \<Rightarrow> [] | Some members \<Rightarrow> members))
            (sseByDevice ?s)\<rparr>)"
    using stream_hello_first [OF h1 h2 h3 h4] by (rule conjunct1)
  also have "\<dots> = Inr (EventStream,
           \<lparr>latestByDevice = [(''pico'', ?rec)], sseByDevice = [(''pico'', [3])],
            wire = ?hello, broken = []\<rparr>)"
    unfolding s by (simp add: Map_get_def Set_add_def)
  finally show ?thesis
    using h1 h2 h3 h4 by blast
qed

text \<open>
  Claim C7, counterexample: the store holds a record under the identifier \<open>a\<close> between
  two blanks, taken from the topic as it is; the request for that very identifier is
  answered for \<open>a\<close>, with \<open>hasLast = false\<close>.
\<close>

theorem stream_untrimmed_device_counterexample:
  "Map_get '' a '' (latestByDevice (run sample_runtime sample_config
       [BusMessage 10 ''embarcatech/ a /telemetry'' ''{\"temp\":21}'']))
     = Some \<lparr>ts = 10, topic = ''embarcatech/ a /telemetry'', raw = ''{\"temp\":21}'',
              parsed = JObj [(''temp'', JNum 21)]\<rparr>
   \<and> api_stream sample_runtime '' a '' 3 (run sample_runtime sample_config
         [BusMessage 10 ''embarcatech/ a /telemetry'' ''{\"temp\":21}''])
       = Inr (EventStream,
           \<lparr>latestByDevice =
              [('' a '', \<lparr>ts = 10, topic = ''embarcatech/ a /telemetry'', raw = ''{\"temp\":21}'',
                          parsed = JObj [(''temp'', JNum 21)]\<rparr>)],
            sseByDevice = [(''a'', [3])],
            wire =
              [(3, ''event: hello'' @ [CHR 0x0A], True),
               (3, ''data: {\"device\":\"a\",\"hasLast\":false,\"last\":null}'' @ [CHR 0x0A, CHR 0x0A],
                True)],
            broken = []\<rparr>)"
  by code_simp




lemma api_devices_listing:
  "api_devices s =
     Json 200 (JObj [(''devices'',
       JArr (map JStr (sort_key utf16_units (Map_keys (latestByDevice s)))))])
   \<and> sorted (map utf16_units (sort_key utf16_units (Map_keys (latestByDevice s))))
   \<and> set (sort_key utf16_units (Map_keys (latestByDevice s))) = set (Map_keys (latestByDevice s))"
  by (simp add: api_devices_def)

lemma api_devices_listing_distinct:
  "distinct (sort_key utf16_units (Map_keys (latestByDevice (run L C evs))))"
  using run_store_invariant [of L C evs] by simp

text \<open>
  Claim C9, at a failing input: after a message for \<open>b\<close> and then one for \<open>a\<close>, the
  status response lists the devices in order of first arrival, \<open>b\<close> before \<open>a\<close>, while
  the device listing sorts them. Both hold the same identifiers.
\<close>

theorem api_state_listing_unsorted:
  "api_state sample_config True (run sample_runtime sample_config
      [BusMessage 10 ''embarcatech/b/telemetry'' ''21'',
       BusMessage 20 ''embarcatech/a/telemetry'' ''21''])
     = Json 200 (JObj
         [(''mqtt'', JObj [(''url'', JStr ''mqtt://broker.hivemq.com:1883''), (''connected'', JBool True)]),
          (''prefix'', JStr ''embarcatech''),
          (''devices'', JArr [JStr ''b'', JStr ''a''])])
   \<and> api_devices (run sample_runtime sample_config
      [BusMessage 10 ''embarcatech/b/telemetry'' ''21'',
       BusMessage 20 ''embarcatech/a/telemetry'' ''21''])
     = Json 200 (JObj [(''devices'', JArr [JStr ''a'', JStr ''b''])])
   \<and> \<not> sorted [''b'', ''a'']"
  by code_simp

end
